theory Spec2Isabelle
  imports Complex_Main
begin

section \<open>JavaScript values used by the dashboard\<close>

text \<open>
  A JavaScript number is an IEEE double. The pages only store numbers, test them for
  truthiness and render them; they never do arithmetic on a fetched count. A finite double
  is a rational number, so a finite value is kept as a \<open>rat\<close> (both zeros are \<open>Num 0\<close>),
  next to the three special values.
\<close>

datatype number = Num rat | NaN | PosInf | NegInf

text \<open>
  What \<open>res.json()\<close> can return: the JSON values. \<open>undefined\<close> is not a JSON value; an
  expression that may be \<open>undefined\<close> has type \<open>json option\<close>, with \<open>None\<close> for it.
  An object is the list of its own properties, each name once.
\<close>

datatype json =
    JNull
  | JBool bool
  | JNum number
  | JStr string
  | JArr "json list"
  | JObj "(string \<times> json) list"

text \<open>The property names the payments page reads from a response.\<close>

datatype key = Pagination | Total_items | Data | Items | Length

fun key_name :: "key \<Rightarrow> string" where
  "key_name Pagination = ''pagination''"
| "key_name Total_items = ''total_items''"
| "key_name Data = ''data''"
| "key_name Items = ''items''"
| "key_name Length = ''length''"

text \<open>
  \<open>v.k\<close> on a value that is neither \<open>null\<close> nor \<open>undefined\<close>: an object yields its
  property, an array and a string have a \<open>length\<close>, and none of the five names is a
  property of a boolean or a number.
\<close>

fun property :: "json \<Rightarrow> key \<Rightarrow> json option" where
  "property (JObj kvs) k = map_of kvs (key_name k)"
| "property (JArr xs) k = (if k = Length then Some (JNum (Num (of_nat (length xs)))) else None)"
| "property (JStr s) k = (if k = Length then Some (JNum (Num (of_nat (length s)))) else None)"
| "property (JBool b) k = None"
| "property (JNum n) k = None"
| "property JNull k = None"

text \<open>Optional chaining \<open>v?.k\<close>: \<open>undefined\<close> when \<open>v\<close> is \<open>null\<close> or \<open>undefined\<close>.\<close>

fun opt_chain :: "json option \<Rightarrow> key \<Rightarrow> json option" where
  "opt_chain None k = None"
| "opt_chain (Some JNull) k = None"
| "opt_chain (Some v) k = property v k"

text \<open>Nullish coalescing \<open>a ?? b\<close>: \<open>b\<close> when \<open>a\<close> is \<open>null\<close> or \<open>undefined\<close>.\<close>

fun nullish :: "json option \<Rightarrow> bool" where
  "nullish None = True"
| "nullish (Some JNull) = True"
| "nullish (Some v) = False"

definition coalesce :: "json option \<Rightarrow> json option \<Rightarrow> json option" where
  "coalesce a b = (if nullish a then b else a)"

definition coalesce_lit :: "json option \<Rightarrow> json \<Rightarrow> json" where
  "coalesce_lit a d = (case a of None \<Rightarrow> d | Some JNull \<Rightarrow> d | Some v \<Rightarrow> v)"

text \<open>
  \<open>Number(v)\<close>. On a number it is the identity, on a boolean 0 or 1, on \<open>null\<close> 0. On a
  string, an array or an object it is the ECMAScript string-to-number conversion of the
  language runtime, taken as the parameter \<open>coerce\<close>.
\<close>

fun Number :: "(json \<Rightarrow> number) \<Rightarrow> json \<Rightarrow> number" where
  "Number coerce (JNum n) = n"
| "Number coerce (JBool b) = (if b then Num 1 else Num 0)"
| "Number coerce JNull = Num 0"
| "Number coerce v = coerce v"

text \<open>\<open>n || 0\<close> on a number: 0 when \<open>n\<close> is falsy, that is zero or \<open>NaN\<close>.\<close>

fun or_zero :: "number \<Rightarrow> number" where
  "or_zero NaN = Num 0"
| "or_zero (Num r) = (if r = 0 then Num 0 else Num r)"
| "or_zero n = n"



section \<open>The events page: pagination of the endpoints table\<close>






text \<open>The loop \<open>for (let i = start; i <= end; i++) pages.push(i)\<close>.\<close>

function push_pages :: "int \<Rightarrow> int \<Rightarrow> int list \<Rightarrow> int list" where
  "push_pages i end' pages =
     (if i \<le> end' then push_pages (i + 1) end' (pages @ [i]) else pages)"
  by pat_completeness auto
termination
  by (relation "measure (\<lambda>(i, e, pages). nat (e + 1 - i))") auto

definition getPaginationNumbers :: "int \<Rightarrow> int \<Rightarrow> int \<Rightarrow> int list" where
  "getPaginationNumbers maxVis totalPgs currentPage =
     (let start = max 1 (currentPage - maxVis div 2);
          end' = min totalPgs (start + maxVis - 1);
          start = (if end' - start + 1 < maxVis then max 1 (end' - maxVis + 1) else start)
      in push_pages start end' [])"


text \<open>
  The state of \<open>EventsPage\<close>. \<open>setCurrentPage\<close> is called by a page button with the number
  it shows and by the selector with the number of the chosen option; it stores the number
  as given.
\<close>

record events_state =
  isNotificationSettingsOpen :: bool
  isCategoriesOpen :: bool
  currentPage :: int
  selectedEvent :: string









section \<open>The payments page\<close>

text \<open>
  Two versions of the payments page are among the sources. The first three subsections
  follow the one that declares \<open>PaymentFilters\<close> and keeps three counts in its state; the
  fourth follows the one in \<open>app/payments/page.tsx\<close>, which has neither.
\<close>

subsection \<open>State and filter criteria\<close>

datatype paymentState = settled | failed | pending

datatype operator = gte | lte | eq

text \<open>
  The type \<open>PaymentFilters\<close>: every field is optional. The fields \<open>value\<close>, \<open>from\<close> and
  \<open>to\<close> carry a prime because their names are reserved words here.
\<close>

record PaymentFilters =
  paymentState :: "paymentState option"
  operator :: "operator option"
  value' :: "number option"
  from' :: "string option"
  to' :: "string option"

fun paymentState_string :: "paymentState \<Rightarrow> string" where
  "paymentState_string settled = ''settled''"
| "paymentState_string failed = ''failed''"
| "paymentState_string pending = ''pending''"

text \<open>
  The six state cells of \<open>Page\<close>. The element type of \<open>payments\<close> is declared in the
  payment table component and is a type parameter.
\<close>

record 'p page_state =
  selectedState :: string
  payments :: "'p list"
  incomingCount :: number
  outgoingCount :: number
  allCount :: number
  filters :: PaymentFilters

definition no_filters :: PaymentFilters where
  "no_filters = \<lparr>paymentState = None, operator = None, value' = None, from' = None, to' = None\<rparr>"

definition page_initial :: "'p page_state" where
  "page_initial =
     \<lparr>selectedState = ''all'', payments = [], incomingCount = Num 0, outgoingCount = Num 0,
      allCount = Num 0, filters = no_filters\<rparr>"

subsection \<open>The three count effects\<close>

text \<open>
  Each effect awaits \<open>fetch(url)\<close> and \<open>res.json()\<close> inside \<open>try\<close>; either may throw.
\<close>

datatype fetch_outcome = NetworkError | InvalidBody | Json json

text \<open>
  \<open>data?.pagination?.total_items ?? data?.data?.items?.length ?? 0\<close>
\<close>

definition explicit_total :: "json \<Rightarrow> json option" where
  "explicit_total data = opt_chain (opt_chain (Some data) Pagination) Total_items"

definition items_of :: "json \<Rightarrow> json option" where
  "items_of data = opt_chain (opt_chain (Some data) Data) Items"

definition items_length :: "json \<Rightarrow> json option" where
  "items_length data = opt_chain (items_of data) Length"

definition count_of :: "json \<Rightarrow> json" where
  "count_of data =
     coalesce_lit (coalesce (explicit_total data) (items_length data)) (JNum (Num 0))"

text \<open>
  The value a count effect passes to its setter: \<open>Number(count) || 0\<close> in the \<open>try\<close>
  block, 0 in the \<open>catch\<close> block.
\<close>

fun fetched_count :: "(json \<Rightarrow> number) \<Rightarrow> fetch_outcome \<Rightarrow> number" where
  "fetched_count coerce (Json data) = or_zero (Number coerce (count_of data))"
| "fetched_count coerce NetworkError = Num 0"
| "fetched_count coerce InvalidBody = Num 0"

definition fetchIncomingCount :: "(json \<Rightarrow> number) \<Rightarrow> fetch_outcome \<Rightarrow> 'p page_state \<Rightarrow> 'p page_state" where
  "fetchIncomingCount coerce res st = st\<lparr>incomingCount := fetched_count coerce res\<rparr>"

definition fetchAllCount :: "(json \<Rightarrow> number) \<Rightarrow> fetch_outcome \<Rightarrow> 'p page_state \<Rightarrow> 'p page_state" where
  "fetchAllCount coerce res st = st\<lparr>allCount := fetched_count coerce res\<rparr>"

definition fetchOutgoingCount :: "(json \<Rightarrow> number) \<Rightarrow> fetch_outcome \<Rightarrow> 'p page_state \<Rightarrow> 'p page_state" where
  "fetchOutgoingCount coerce res st = st\<lparr>outgoingCount := fetched_count coerce res\<rparr>"

text \<open>
  The three effects are declared with the dependency list \<open>[]\<close>: they run after the
  render that mounts the page and after no later render. Each issues one request, to a
  constant URL, in the order incoming, all, outgoing.
\<close>

definition incoming_url :: string where
  "incoming_url = ''/api/payments?payment_types=incoming&per_page=1&page=1''"

definition all_url :: string where
  "all_url = ''/api/payments?per_page=1&page=1''"

definition outgoing_url :: string where
  "outgoing_url = ''/api/payments?payment_types=outgoing&per_page=1&page=1''"

datatype render = Mount | Update

fun effect_requests :: "render \<Rightarrow> string list" where
  "effect_requests Mount = [incoming_url, all_url, outgoing_url]"
| "effect_requests Update = []"

subsection \<open>Applying filters, and the other events of the page\<close>

definition setFilters :: "PaymentFilters \<Rightarrow> 'p page_state \<Rightarrow> 'p page_state" where
  "setFilters f st = st\<lparr>filters := f\<rparr>"

definition setSelectedState :: "string \<Rightarrow> 'p page_state \<Rightarrow> 'p page_state" where
  "setSelectedState s st = st\<lparr>selectedState := s\<rparr>"

definition setPayments :: "'p list \<Rightarrow> 'p page_state \<Rightarrow> 'p page_state" where
  "setPayments ps st = st\<lparr>payments := ps\<rparr>"

text \<open>
  \<open>handleApplyFilters\<close>. The test \<open>if (applied.paymentState)\<close> is a truthiness test; each
  of the three strings of the type is truthy and \<open>undefined\<close> is not.
\<close>

definition handleApplyFilters :: "PaymentFilters \<Rightarrow> 'p page_state \<Rightarrow> 'p page_state" where
  "handleApplyFilters applied st =
     (let st = setFilters applied st
      in case paymentState applied of
           Some s \<Rightarrow> setSelectedState (paymentState_string s) st
         | None \<Rightarrow> st)"

text \<open>
  What can happen to the page after it is mounted: each of the three count fetches
  completes, in any order; the filter drawer applies criteria; the payment table replaces
  the list through the \<open>setPayments\<close> it was given; a category button is clicked, whose
  handler has an empty body.
\<close>

datatype 'p event =
    IncomingCountDone fetch_outcome
  | AllCountDone fetch_outcome
  | OutgoingCountDone fetch_outcome
  | ApplyFilters PaymentFilters
  | TableSetPayments "'p list"
  | CategoryClick string

fun step :: "(json \<Rightarrow> number) \<Rightarrow> 'p page_state \<Rightarrow> 'p event \<Rightarrow> 'p page_state" where
  "step coerce st (IncomingCountDone res) = fetchIncomingCount coerce res st"
| "step coerce st (AllCountDone res) = fetchAllCount coerce res st"
| "step coerce st (OutgoingCountDone res) = fetchOutgoingCount coerce res st"
| "step coerce st (ApplyFilters applied) = handleApplyFilters applied st"
| "step coerce st (TableSetPayments ps) = setPayments ps st"
| "step coerce st (CategoryClick k) = st"

definition run :: "(json \<Rightarrow> number) \<Rightarrow> 'p event list \<Rightarrow> 'p page_state \<Rightarrow> 'p page_state" where
  "run coerce es st = foldl (step coerce) st es"

fun is_count_event :: "'p event \<Rightarrow> bool" where
  "is_count_event (IncomingCountDone res) = True"
| "is_count_event (AllCountDone res) = True"
| "is_count_event (OutgoingCountDone res) = True"
| "is_count_event e = False"

text \<open>
  The number drawn in the badge of a category button:
  \<open>type.key === "incoming" ? incomingCount : type.key === "all" ? allCount :
   type.key === "outgoing" ? outgoingCount : 0\<close>.
\<close>

definition badge :: "string \<Rightarrow> 'p page_state \<Rightarrow> number" where
  "badge k st =
     (if k = ''incoming'' then incomingCount st
      else if k = ''all'' then allCount st
      else if k = ''outgoing'' then outgoingCount st
      else Num 0)"

subsection \<open>The page in \<open>app/payments/page.tsx\<close>\<close>

text \<open>
  This file holds no counts: its state is \<open>selectedType\<close> and \<open>payments\<close>, and the badge
  of a category button is \<open>type.key === "all" ? payments.length : 0\<close>.
\<close>

definition badge_page_tsx :: "string \<Rightarrow> 'p list \<Rightarrow> number" where
  "badge_page_tsx k pays = (if k = ''all'' then Num (of_nat (length pays)) else Num 0)"



subsection \<open>The page and the table below it\<close>



section \<open>Parts described by the specification only\<close>

subsection \<open>Validation of filter criteria\<close>

text \<open>
  Modelled from the spec: the chronological order of two calendar days, used by the
  validation of the Filter Model (section 4.1), which no source file implements. Days are
  written \<open>YYYY-MM-DD\<close>, as in \<open>PaymentFilters\<close>; in that form they are in chronological
  order exactly when their strings are in lexicographic order.
\<close>

fun date_before :: "string \<Rightarrow> string \<Rightarrow> bool" where
  "date_before [] [] = False"
| "date_before [] (y # ys) = True"
| "date_before (x # xs) [] = False"
| "date_before (x # xs) (y # ys) =
     (if x = y then date_before xs ys else (of_char x :: nat) < of_char y)"

text \<open>
  Modelled from the spec: the missing validation rule "numeric threshold must be a finite,
  non-negative amount when the operator dimension is set" (section 4.1).
\<close>

definition threshold_ok :: "PaymentFilters \<Rightarrow> bool" where
  "threshold_ok c =
     (case operator c of
        None \<Rightarrow> True
      | Some cmp \<Rightarrow> (case value' c of Some (Num r) \<Rightarrow> 0 \<le> r | _ \<Rightarrow> False))"

text \<open>
  Modelled from the spec: the missing validation rule "date range start must not be
  chronologically after end" (section 4.1).
\<close>

definition range_ok :: "PaymentFilters \<Rightarrow> bool" where
  "range_ok c =
     (case from' c of
        None \<Rightarrow> True
      | Some a \<Rightarrow> (case to' c of None \<Rightarrow> True | Some b \<Rightarrow> \<not> date_before b a))"

text \<open>
  Modelled from the spec: the criteria that the missing validation of section 4.1 accepts,
  those that meet both rules.
\<close>

definition valid_criteria :: "PaymentFilters \<Rightarrow> bool" where
  "valid_criteria c = (threshold_ok c \<and> range_ok c)"

subsection \<open>The payment table\<close>

text \<open>
  The table component \<open>DataTable\<close> is imported by the payments page from
  \<open>payment-table\<close>, a file that is not among the sources. It fetches the records, holds
  the current page and receives \<open>filters\<close>, \<open>selectedState\<close> and \<open>setPayments\<close> from the
  page. What follows is written from sections 4.2, 4.4, 4.5, 6 and 7 of the specification.
\<close>

text \<open>
  Modelled from the spec: \<open>computePages\<close> of the missing table's Pagination Controller,
  "max(1, ceil(totalItems/pageSize))".
\<close>

definition computePages :: "int \<Rightarrow> int \<Rightarrow> int" where
  "computePages totalItems pageSize = max 1 \<lceil>real_of_int totalItems / real_of_int pageSize\<rceil>"

text \<open>
  Modelled from the spec: \<open>clampPage\<close> of the missing table's Pagination Controller,
  "min(max(1, requested), totalPages)".
\<close>

definition clampPage :: "int \<Rightarrow> int \<Rightarrow> int" where
  "clampPage requested totalPgs = min (max 1 requested) totalPgs"

text \<open>Modelled from the spec: the direction tabs of the missing table, "all|incoming|outgoing".\<close>

datatype tab = All | Incoming | Outgoing

text \<open>
  Modelled from the spec: the states of a fetch cycle of the missing table,
  "Idle, Loading, Ready, Error".
\<close>

datatype status = Idle | Loading | Ready | Error

text \<open>Modelled from the spec: the error condition of a failed fetch of the missing table.\<close>

datatype fetch_error = FetchError

text \<open>
  Modelled from the spec: the state of the View Synchronizer inside the missing table: the
  criteria and direction it fetches for, the pagination state, the visible records, the
  status of the fetch cycle, and the token of the latest request issued (0 before the
  first).
\<close>

record 'r table_state =
  criteria :: PaymentFilters
  direction :: tab
  page :: int
  pageSize :: int
  totalItems :: int
  records :: "'r list"
  status :: status
  token :: nat

text \<open>
  Modelled from the spec: a fetch trigger of the missing table tags its request with the
  next sequence number and enters \<open>Loading\<close>.
\<close>

definition issue :: "'r table_state \<Rightarrow> 'r table_state" where
  "issue st = st\<lparr>status := Loading, token := token st + 1\<rparr>"

text \<open>
  Modelled from the spec: the entry point \<open>applyFilter\<close> of the missing table. The criteria
  are replaced as a unit, the page is reset to 1 and a fetch is triggered.
\<close>

definition applyFilter :: "PaymentFilters \<Rightarrow> 'r table_state \<Rightarrow> 'r table_state" where
  "applyFilter c st = issue (st\<lparr>criteria := c, page := 1\<rparr>)"

text \<open>
  Modelled from the spec: the entry point \<open>goToPage\<close> of the missing table. The request is
  clamped; criteria and direction are kept; a fetch is triggered.
\<close>

definition goToPage :: "int \<Rightarrow> 'r table_state \<Rightarrow> 'r table_state" where
  "goToPage n st =
     issue (st\<lparr>page := clampPage n (computePages (totalItems st) (pageSize st))\<rparr>)"

text \<open>
  Modelled from the spec: the arrival of a response in the missing table. A response whose
  token is not the latest issued is discarded. The latest one replaces records and total
  as one unit; a failed one keeps the previous snapshot and enters \<open>Error\<close>.
\<close>

definition resolve :: "nat \<Rightarrow> fetch_error + ('r list \<times> int) \<Rightarrow> 'r table_state \<Rightarrow> 'r table_state" where
  "resolve tok outcome st =
     (if tok = token st then
        (case outcome of
           Inr (rs, n) \<Rightarrow> st\<lparr>records := rs, totalItems := n, status := Ready\<rparr>
         | Inl err \<Rightarrow> st\<lparr>status := Error\<rparr>)
      else st)"


text \<open>
  Modelled from the spec: the events of the missing table, the two triggers and the
  arrival of the response to the request with a given token.
\<close>

datatype 'r table_event =
    FilterApplied PaymentFilters
  | PageChanged int
  | Response nat "fetch_error + ('r list \<times> int)"

text \<open>Modelled from the spec: the transition of the missing table on one event.\<close>

fun table_step :: "'r table_state \<Rightarrow> 'r table_event \<Rightarrow> 'r table_state" where
  "table_step st (FilterApplied c) = applyFilter c st"
| "table_step st (PageChanged n) = goToPage n st"
| "table_step st (Response tok outcome) = resolve tok outcome st"

text \<open>Modelled from the spec: the events of the missing table that trigger a fetch.\<close>

fun is_trigger :: "'r table_event \<Rightarrow> bool" where
  "is_trigger (Response tok outcome) = False"
| "is_trigger ev = True"

text \<open>
  Modelled from the spec: the missing table before its first fetch, for a given fixed page
  size.
\<close>

definition table_initial :: "int \<Rightarrow> 'r table_state" where
  "table_initial perPage =
     \<lparr>criteria = no_filters, direction = All, page = 1, pageSize = perPage, totalItems = 0,
      records = [], status = Idle, token = 0\<rparr>"


section \<open>Properties of the events page pagination\<close>

lemma push_pages_upto: "push_pages i e pages = pages @ [i..e]"
proof (induction i e pages rule: push_pages.induct)
  case (1 i e pages)
  show ?case
  proof (cases "i \<le> e")
    case True
    then have "push_pages i e pages = push_pages (i + 1) e (pages @ [i])"
      by (subst push_pages.simps) simp
    also have "\<dots> = (pages @ [i]) @ [i + 1..e]" using 1 True by simp
    also have "\<dots> = pages @ [i..e]" using True by (simp add: upto_rec1)
    finally show ?thesis .
  next
    case False
    then show ?thesis by (subst push_pages.simps) simp
  qed
qed



lemma getPaginationNumbers_closed:
  assumes "1 \<le> T" "1 \<le> c" "c \<le> T" "1 \<le> m"
  shows "getPaginationNumbers m T c =
           [max 1 (min (c - m div 2) (T - m + 1)) ..
            max 1 (min (c - m div 2) (T - m + 1)) + min m T - 1]"
proof -
  define s0 where "s0 = max 1 (c - m div 2)"
  define e where "e = min T (s0 + m - 1)"
  define s where "s = (if e - s0 + 1 < m then max 1 (e - m + 1) else s0)"
  have run: "getPaginationNumbers m T c = [s..e]"
    unfolding getPaginationNumbers_def Let_def push_pages_upto s_def e_def s0_def by simp
  have s_eq: "s = max 1 (min (c - m div 2) (T - m + 1))"
    using assms unfolding s_def e_def s0_def by (simp add: max_def min_def)
  have e_eq: "e = s + min m T - 1"
    using assms unfolding s_def e_def s0_def by (simp add: max_def min_def)
  show ?thesis using run s_eq e_eq by simp
qed

text \<open>
  Claim C8. For every number of pages \<open>totalPgs \<ge> 1\<close>, current page in
  \<open>[1, totalPgs]\<close> and \<open>maxVis \<ge> 1\<close>, the page numbers returned by
  \<open>getPaginationNumbers\<close> are a non-empty contiguous run of length
  \<open>min maxVis totalPgs\<close>, all within \<open>[1, totalPgs]\<close>, that contains the current page. The
  run starts \<open>maxVis div 2\<close> pages before the current page when that placement fits, starts
  at page 1 when the current page is too near the first page, and ends at the last page
  when the current page is too near the last one.
\<close>

theorem getPaginationNumbers_window:
  assumes "1 \<le> totalPgs" and "1 \<le> current" and "current \<le> totalPgs" and "1 \<le> maxVis"
  shows "(let ws = getPaginationNumbers maxVis totalPgs current in
            ws \<noteq> []
          \<and> ws = [hd ws .. hd ws + min maxVis totalPgs - 1]
          \<and> int (length ws) = min maxVis totalPgs
          \<and> (\<forall>p \<in> set ws. 1 \<le> p \<and> p \<le> totalPgs)
          \<and> current \<in> set ws
          \<and> (1 \<le> current - maxVis div 2 \<and> current - maxVis div 2 + maxVis - 1 \<le> totalPgs
               \<longrightarrow> hd ws = current - maxVis div 2)
          \<and> (current - maxVis div 2 < 1 \<longrightarrow> hd ws = 1)
          \<and> (totalPgs < current - maxVis div 2 + maxVis - 1 \<longrightarrow> last ws = totalPgs))"
proof -
  define s where "s = max 1 (min (current - maxVis div 2) (totalPgs - maxVis + 1))"
  define n where "n = min maxVis totalPgs"
  define ws where "ws = getPaginationNumbers maxVis totalPgs current"
  have ws: "ws = [s .. s + n - 1]"
    unfolding ws_def s_def n_def using assms by (rule getPaginationNumbers_closed)
  have h0: "0 \<le> maxVis div 2" using assms by simp
  have h1: "maxVis div 2 \<le> maxVis - 1" using assms by simp
  have n1: "1 \<le> n" using assms by (simp add: n_def)
  have s1: "1 \<le> s" by (simp add: s_def)
  have sT: "s + n - 1 \<le> totalPgs" using assms by (simp add: s_def n_def max_def min_def)
  have sc: "s \<le> current" using assms h0 by (auto simp: s_def max_def min_def)
  have cs: "current \<le> s + n - 1" using assms h0 h1 unfolding s_def n_def
    by (auto simp: max_def min_def)
  have ne: "ws \<noteq> []" using n1 by (simp add: ws)
  have hd: "hd ws = s" using n1 unfolding ws by (subst upto.simps) simp
  have lst: "last ws = s + n - 1" using n1 unfolding ws by (subst upto_rec2) simp_all
  have run: "ws = [hd ws .. hd ws + min maxVis totalPgs - 1]"
    unfolding hd n_def [symmetric] by (rule ws)
  have len: "int (length ws) = min maxVis totalPgs"
    unfolding n_def [symmetric] using n1 by (simp add: ws)
  have rng: "\<forall>p \<in> set ws. 1 \<le> p \<and> p \<le> totalPgs" using s1 sT by (auto simp: ws)
  have mem: "current \<in> set ws" using sc cs by (simp add: ws)
  have centred: "1 \<le> current - maxVis div 2 \<and> current - maxVis div 2 + maxVis - 1 \<le> totalPgs
                 \<longrightarrow> hd ws = current - maxVis div 2"
    unfolding hd s_def by (simp add: max_def min_def)
  have low: "current - maxVis div 2 < 1 \<longrightarrow> hd ws = 1"
    unfolding hd s_def by (simp add: max_def min_def)
  have high: "totalPgs < current - maxVis div 2 + maxVis - 1 \<longrightarrow> last ws = totalPgs"
    using assms unfolding lst s_def n_def by (simp add: max_def min_def)
  show ?thesis
    unfolding Let_def ws_def [symmetric]
    using ne run len rng mem centred low high by blast
qed

theorem getPaginationNumbers_window_witness:
  "(1::int) \<le> 30 \<and> (1::int) \<le> 29 \<and> (29::int) \<le> 30 \<and> (1::int) \<le> 5
   \<and> getPaginationNumbers 5 30 29 = [26, 27, 28, 29, 30]
   \<and> (let ws = getPaginationNumbers 5 30 29 in
            ws \<noteq> []
          \<and> ws = [hd ws .. hd ws + min 5 30 - 1]
          \<and> int (length ws) = min 5 30
          \<and> (\<forall>p \<in> set ws. 1 \<le> p \<and> p \<le> 30)
          \<and> 29 \<in> set ws
          \<and> ((1::int) \<le> 29 - 5 div 2 \<and> (29::int) - 5 div 2 + 5 - 1 \<le> 30 \<longrightarrow> hd ws = 29 - 5 div 2)
          \<and> ((29::int) - 5 div 2 < 1 \<longrightarrow> hd ws = 1)
          \<and> ((30::int) < 29 - 5 div 2 + 5 - 1 \<longrightarrow> last ws = 30))"
proof -
  have run: "getPaginationNumbers 5 30 29 = [26, 27, 28, 29, 30]" by code_simp
  show ?thesis
    using getPaginationNumbers_window [of 30 29 5] run by simp
qed
















section \<open>Properties of the payments page\<close>

lemma count_of_explicit:
  "explicit_total data = Some v \<Longrightarrow> v \<noteq> JNull \<Longrightarrow> count_of data = v"
  by (cases v) (simp_all add: count_of_def coalesce_def coalesce_lit_def)

lemma count_of_items:
  "nullish (explicit_total data) \<Longrightarrow> items_length data = Some v \<Longrightarrow> v \<noteq> JNull
   \<Longrightarrow> count_of data = v"
  by (cases v) (simp_all add: count_of_def coalesce_def coalesce_lit_def)

lemma count_of_default:
  "nullish (explicit_total data) \<Longrightarrow> nullish (items_length data)
   \<Longrightarrow> count_of data = JNum (Num 0)"
  by (cases "items_length data" rule: nullish.cases)
     (simp_all add: count_of_def coalesce_def coalesce_lit_def)

text \<open>
  Claim C9. For every parsed response, the count a count effect stores is the explicit
  \<open>pagination.total_items\<close> when that is a number; when the explicit total is missing or
  \<open>null\<close> and \<open>data.items\<close> is an array, it is the length of that array; when both are
  missing it is 0; and whenever the value found does not convert to a number it is 0.
\<close>

theorem fetched_count_fallback:
  "(explicit_total data = Some (JNum n) \<and> n \<noteq> NaN
      \<longrightarrow> fetched_count coerce (Json data) = n)
   \<and> (nullish (explicit_total data) \<and> items_of data = Some (JArr xs)
      \<longrightarrow> fetched_count coerce (Json data) = Num (of_nat (length xs)))
   \<and> (nullish (explicit_total data) \<and> nullish (items_length data)
      \<longrightarrow> fetched_count coerce (Json data) = Num 0)
   \<and> (Number coerce (count_of data) = NaN \<longrightarrow> fetched_count coerce (Json data) = Num 0)"
proof -
  have a: "fetched_count coerce (Json data) = n"
    if "explicit_total data = Some (JNum n)" and "n \<noteq> NaN"
  proof -
    have "count_of data = JNum n" using that(1) by (simp add: count_of_explicit)
    then show ?thesis using that(2) by (cases n) simp_all
  qed
  have b: "fetched_count coerce (Json data) = Num (of_nat (length xs))"
    if "nullish (explicit_total data)" and "items_of data = Some (JArr xs)"
  proof -
    have "items_length data = Some (JNum (Num (of_nat (length xs))))"
      using that(2) by (simp add: items_length_def)
    then have "count_of data = JNum (Num (of_nat (length xs)))"
      using that(1) by (simp add: count_of_items)
    then show ?thesis by simp
  qed
  have c: "fetched_count coerce (Json data) = Num 0"
    if "nullish (explicit_total data)" and "nullish (items_length data)"
    using that by (simp add: count_of_default)
  have d: "fetched_count coerce (Json data) = Num 0"
    if "Number coerce (count_of data) = NaN"
    using that by simp
  show ?thesis using a b c d by blast
qed

theorem fetched_count_fallback_witness:
  "fetched_count (\<lambda>v. NaN)
     (Json (JObj [(''data'', JObj [(''items'', JArr [JNull])]),
                  (''pagination'', JObj [(''total_items'', JNum (Num 42))])])) = Num 42
   \<and> fetched_count (\<lambda>v. NaN)
     (Json (JObj [(''data'', JObj [(''items'', JArr [JStr ''a'', JStr ''b''])]),
                  (''pagination'', JObj [(''total_items'', JNull)])])) = Num 2
   \<and> fetched_count (\<lambda>v. NaN) (Json (JObj [(''error'', JStr ''unauthorized'')])) = Num 0
   \<and> fetched_count (\<lambda>v. NaN)
     (Json (JObj [(''pagination'', JObj [(''total_items'', JStr ''many'')])])) = Num 0"
proof -
  let ?c = "\<lambda>v::json. NaN"
  let ?d1 = "JObj [(''data'', JObj [(''items'', JArr [JNull])]),
                  (''pagination'', JObj [(''total_items'', JNum (Num 42))])]"
  let ?d2 = "JObj [(''data'', JObj [(''items'', JArr [JStr ''a'', JStr ''b''])]),
                  (''pagination'', JObj [(''total_items'', JNull)])]"
  let ?d3 = "JObj [(''error'', JStr ''unauthorized'')]"
  let ?d4 = "JObj [(''pagination'', JObj [(''total_items'', JStr ''many'')])]"
  have h1: "explicit_total ?d1 = Some (JNum (Num 42)) \<and> Num 42 \<noteq> NaN"
    by (simp add: explicit_total_def)
  have h2: "nullish (explicit_total ?d2) \<and> items_of ?d2 = Some (JArr [JStr ''a'', JStr ''b''])"
    by (simp add: explicit_total_def items_of_def)
  have h3: "nullish (explicit_total ?d3) \<and> nullish (items_length ?d3)"
    by (simp add: explicit_total_def items_of_def items_length_def)
  have h4: "Number ?c (count_of ?d4) = NaN"
    by (simp add: count_of_def explicit_total_def coalesce_def coalesce_lit_def)
  from fetched_count_fallback [of ?d1 "Num 42" ?c "[]"] h1
  have r1: "fetched_count ?c (Json ?d1) = Num 42" by blast
  from fetched_count_fallback [of ?d2 NaN ?c "[JStr ''a'', JStr ''b'']"] h2
  have r2: "fetched_count ?c (Json ?d2) = Num 2" by simp
  from fetched_count_fallback [of ?d3 NaN ?c "[]"] h3
  have r3: "fetched_count ?c (Json ?d3) = Num 0" by blast
  from fetched_count_fallback [of ?d4 NaN ?c "[]"] h4
  have r4: "fetched_count ?c (Json ?d4) = Num 0" by blast
  from r1 r2 r3 r4 show ?thesis by blast
qed

lemma handleApplyFilters_fields:
  "filters (handleApplyFilters applied st) = applied"
  "selectedState (handleApplyFilters applied st) =
     (case paymentState applied of Some s \<Rightarrow> paymentState_string s | None \<Rightarrow> selectedState st)"
  "allCount (handleApplyFilters applied st) = allCount st"
  "incomingCount (handleApplyFilters applied st) = incomingCount st"
  "outgoingCount (handleApplyFilters applied st) = outgoingCount st"
  "payments (handleApplyFilters applied st) = payments st"
  by (cases "paymentState applied";
      simp add: handleApplyFilters_def setFilters_def setSelectedState_def)+

text \<open>
  Claim C10. \<open>handleApplyFilters\<close> makes the applied object the new \<open>filters\<close> as a whole;
  \<open>selectedState\<close> becomes the applied payment state when one is set and is unchanged
  otherwise; the three counts and the payments list are unchanged.
\<close>

theorem handleApplyFilters_frame:
  "filters (handleApplyFilters applied st) = applied
   \<and> selectedState (handleApplyFilters applied st) =
       (case paymentState applied of
          Some s \<Rightarrow> paymentState_string s
        | None \<Rightarrow> selectedState st)
   \<and> allCount (handleApplyFilters applied st) = allCount st
   \<and> incomingCount (handleApplyFilters applied st) = incomingCount st
   \<and> outgoingCount (handleApplyFilters applied st) = outgoingCount st
   \<and> payments (handleApplyFilters applied st) = payments st"
  by (simp add: handleApplyFilters_fields)

lemma step_not_count_event:
  "\<not> is_count_event e \<Longrightarrow>
     incomingCount (step coerce st e) = incomingCount st
   \<and> allCount (step coerce st e) = allCount st
   \<and> outgoingCount (step coerce st e) = outgoingCount st"
  by (cases e)
     (simp_all add: handleApplyFilters_fields setPayments_def)

lemma run_snoc: "run coerce (es @ [e]) st = step coerce (run coerce es st) e"
  by (simp add: run_def)

lemma run_Nil: "run coerce [] st = st"
  by (simp add: run_def)

lemma counts_frame:
  "\<forall>e \<in> set es. \<not> is_count_event e \<Longrightarrow>
     incomingCount (run coerce es st) = incomingCount st
   \<and> allCount (run coerce es st) = allCount st
   \<and> outgoingCount (run coerce es st) = outgoingCount st"
proof (induction es rule: rev_induct)
  case Nil
  show ?case by (simp add: run_Nil)
next
  case (snoc e es)
  then show ?case using step_not_count_event [of e coerce "run coerce es st"]
    by (simp add: run_snoc)
qed

lemma badge_frame:
  "\<forall>e \<in> set es. \<not> is_count_event e \<Longrightarrow> badge k (run coerce es st) = badge k st"
  using counts_frame [of es coerce st] by (simp add: badge_def)

lemma count_requests_once:
  "concat (map effect_requests (Mount # replicate n Update))
     = [incoming_url, all_url, outgoing_url]"
  by (induction n) simp_all

lemma count_step_frame:
  "is_count_event e \<Longrightarrow>
     payments (step coerce st e) = payments st
   \<and> filters (step coerce st e) = filters st
   \<and> selectedState (step coerce st e) = selectedState st"
  by (cases e)
     (simp_all add: fetchIncomingCount_def fetchAllCount_def fetchOutgoingCount_def)

lemma count_run_frame:
  "\<forall>e \<in> set es. is_count_event e \<Longrightarrow>
     payments (run coerce es st) = payments st
   \<and> filters (run coerce es st) = filters st
   \<and> selectedState (run coerce es st) = selectedState st"
proof (induction es rule: rev_induct)
  case Nil
  show ?case by (simp add: run_Nil)
next
  case (snoc e es)
  then show ?case using count_step_frame [of e coerce "run coerce es st"]
    by (simp add: run_snoc)
qed


lemma step_incoming_other:
  assumes "\<And>r. e \<noteq> IncomingCountDone r"
  shows "incomingCount (step coerce st e) = incomingCount st"
proof (cases e)
  case (IncomingCountDone r)
  then show ?thesis using assms [of r] by simp
qed (simp_all add: fetchAllCount_def fetchOutgoingCount_def handleApplyFilters_fields setPayments_def)

lemma incoming_last:
  assumes "IncomingCountDone ri \<in> set es"
    and "\<And>r. IncomingCountDone r \<in> set es \<Longrightarrow> r = ri"
  shows "incomingCount (run coerce es st) = fetched_count coerce ri"
  using assms
proof (induction es rule: rev_induct)
  case Nil
  then show ?case by simp
next
  case (snoc e es)
  show ?case
  proof (cases "e = IncomingCountDone ri")
    case True
    then show ?thesis by (simp add: run_snoc fetchIncomingCount_def)
  next
    case False
    have other: "\<And>r. e \<noteq> IncomingCountDone r"
    proof
      fix r assume "e = IncomingCountDone r"
      then have "r = ri" using snoc.prems(2) [of r] by simp
      then show False using False \<open>e = IncomingCountDone r\<close> by simp
    qed
    have mem: "IncomingCountDone ri \<in> set es" using snoc.prems(1) False by auto
    have ih: "incomingCount (run coerce es st) = fetched_count coerce ri"
    proof (rule snoc.IH [OF mem])
      fix r assume "IncomingCountDone r \<in> set es"
      then show "r = ri" using snoc.prems(2) [of r] by simp
    qed
    show ?thesis using step_incoming_other [OF other] ih by (simp add: run_snoc)
  qed
qed

lemma step_all_other:
  assumes "\<And>r. e \<noteq> AllCountDone r"
  shows "allCount (step coerce st e) = allCount st"
proof (cases e)
  case (AllCountDone r)
  then show ?thesis using assms [of r] by simp
qed (simp_all add: fetchIncomingCount_def fetchOutgoingCount_def handleApplyFilters_fields setPayments_def)

lemma all_last:
  assumes "AllCountDone r0 \<in> set es"
    and "\<And>r. AllCountDone r \<in> set es \<Longrightarrow> r = r0"
  shows "allCount (run coerce es st) = fetched_count coerce r0"
  using assms
proof (induction es rule: rev_induct)
  case Nil
  then show ?case by simp
next
  case (snoc e es)
  show ?case
  proof (cases "e = AllCountDone r0")
    case True
    then show ?thesis by (simp add: run_snoc fetchAllCount_def)
  next
    case False
    have other: "\<And>r. e \<noteq> AllCountDone r"
    proof
      fix r assume "e = AllCountDone r"
      then have "r = r0" using snoc.prems(2) [of r] by simp
      then show False using False \<open>e = AllCountDone r\<close> by simp
    qed
    have mem: "AllCountDone r0 \<in> set es" using snoc.prems(1) False by auto
    have ih: "allCount (run coerce es st) = fetched_count coerce r0"
    proof (rule snoc.IH [OF mem])
      fix r assume "AllCountDone r \<in> set es"
      then show "r = r0" using snoc.prems(2) [of r] by simp
    qed
    show ?thesis using step_all_other [OF other] ih by (simp add: run_snoc)
  qed
qed

lemma step_outgoing_other:
  assumes "\<And>r. e \<noteq> OutgoingCountDone r"
  shows "outgoingCount (step coerce st e) = outgoingCount st"
proof (cases e)
  case (OutgoingCountDone r)
  then show ?thesis using assms [of r] by simp
qed (simp_all add: fetchIncomingCount_def fetchAllCount_def handleApplyFilters_fields setPayments_def)

lemma outgoing_last:
  assumes "OutgoingCountDone r0 \<in> set es"
    and "\<And>r. OutgoingCountDone r \<in> set es \<Longrightarrow> r = r0"
  shows "outgoingCount (run coerce es st) = fetched_count coerce r0"
  using assms
proof (induction es rule: rev_induct)
  case Nil
  then show ?case by simp
next
  case (snoc e es)
  show ?case
  proof (cases "e = OutgoingCountDone r0")
    case True
    then show ?thesis by (simp add: run_snoc fetchOutgoingCount_def)
  next
    case False
    have other: "\<And>r. e \<noteq> OutgoingCountDone r"
    proof
      fix r assume "e = OutgoingCountDone r"
      then have "r = r0" using snoc.prems(2) [of r] by simp
      then show False using False \<open>e = OutgoingCountDone r\<close> by simp
    qed
    have mem: "OutgoingCountDone r0 \<in> set es" using snoc.prems(1) False by auto
    have ih: "outgoingCount (run coerce es st) = fetched_count coerce r0"
    proof (rule snoc.IH [OF mem])
      fix r assume "OutgoingCountDone r \<in> set es"
      then show "r = r0" using snoc.prems(2) [of r] by simp
    qed
    show ?thesis using step_outgoing_other [OF other] ih by (simp add: run_snoc)
  qed
qed

text \<open>
  Claim C6 says that the count of a category whose fetch failed falls back to 0 and is
  marked as stale or in error. The page keeps no such mark: after the three fetches, the
  state in which the incoming fetch failed is equal to the state in which it succeeded and
  reported a total of 0.
\<close>

theorem count_failure_unmarked_counterexample:
  "run (\<lambda>v. NaN)
     [IncomingCountDone NetworkError,
      AllCountDone (Json (JObj [(''pagination'', JObj [(''total_items'', JNum (Num 7))])])),
      OutgoingCountDone (Json (JObj [(''pagination'', JObj [(''total_items'', JNum (Num 3))])]))]
     (page_initial :: unit page_state)
   = run (\<lambda>v. NaN)
     [IncomingCountDone (Json (JObj [(''pagination'', JObj [(''total_items'', JNum (Num 0))])])),
      AllCountDone (Json (JObj [(''pagination'', JObj [(''total_items'', JNum (Num 7))])])),
      OutgoingCountDone (Json (JObj [(''pagination'', JObj [(''total_items'', JNum (Num 3))])]))]
     page_initial"
  by (simp add: run_def fetchIncomingCount_def fetchAllCount_def fetchOutgoingCount_def
      count_of_def explicit_total_def coalesce_def coalesce_lit_def)

text \<open>
  Claim C6, as the source has it. When the three count fetches have completed, in any
  order, each count is the value of its own fetch alone, so a failure in one category
  leaves the other two at their fetched values; the payments list, the filters and the
  selected state are untouched by the count fetches. A failed fetch stores 0, the same
  value as a successful fetch that reports a total of 0, and nothing else records the
  failure.
\<close>

theorem count_fetches_independent:
  assumes "set es = {IncomingCountDone ri, AllCountDone ra, OutgoingCountDone ro}"
  shows "incomingCount (run coerce es st) = fetched_count coerce ri
       \<and> allCount (run coerce es st) = fetched_count coerce ra
       \<and> outgoingCount (run coerce es st) = fetched_count coerce ro
       \<and> payments (run coerce es st) = payments st
       \<and> filters (run coerce es st) = filters st
       \<and> selectedState (run coerce es st) = selectedState st
       \<and> fetched_count coerce NetworkError = Num 0
       \<and> fetched_count coerce InvalidBody = Num 0
       \<and> fetched_count coerce NetworkError =
           fetched_count coerce
             (Json (JObj [(''pagination'', JObj [(''total_items'', JNum (Num 0))])]))"
proof -
  have i: "incomingCount (run coerce es st) = fetched_count coerce ri"
  proof (rule incoming_last)
    show "IncomingCountDone ri \<in> set es" using assms by simp
    fix r assume "IncomingCountDone r \<in> set es"
    then show "r = ri" using assms by simp
  qed
  have a: "allCount (run coerce es st) = fetched_count coerce ra"
  proof (rule all_last)
    show "AllCountDone ra \<in> set es" using assms by simp
    fix r assume "AllCountDone r \<in> set es"
    then show "r = ra" using assms by simp
  qed
  have o: "outgoingCount (run coerce es st) = fetched_count coerce ro"
  proof (rule outgoing_last)
    show "OutgoingCountDone ro \<in> set es" using assms by simp
    fix r assume "OutgoingCountDone r \<in> set es"
    then show "r = ro" using assms by simp
  qed
  have "\<forall>e \<in> set es. is_count_event e" using assms by simp
  then have f: "payments (run coerce es st) = payments st
       \<and> filters (run coerce es st) = filters st
       \<and> selectedState (run coerce es st) = selectedState st"
    by (rule count_run_frame)
  have z: "fetched_count coerce
             (Json (JObj [(''pagination'', JObj [(''total_items'', JNum (Num 0))])])) = Num 0"
    by (simp add: count_of_def explicit_total_def coalesce_def coalesce_lit_def)
  show ?thesis using i a o f z by simp
qed

theorem count_fetches_independent_witness:
  "set [OutgoingCountDone (Json (JObj [(''pagination'', JObj [(''total_items'', JNum (Num 3))])])),
        IncomingCountDone NetworkError,
        AllCountDone (Json (JObj [(''pagination'', JObj [(''total_items'', JNum (Num 7))])]))]
   = {IncomingCountDone NetworkError,
      AllCountDone (Json (JObj [(''pagination'', JObj [(''total_items'', JNum (Num 7))])])),
      OutgoingCountDone (Json (JObj [(''pagination'', JObj [(''total_items'', JNum (Num 3))])]))}
   \<and> incomingCount (run (\<lambda>v. NaN)
       [OutgoingCountDone (Json (JObj [(''pagination'', JObj [(''total_items'', JNum (Num 3))])])),
        IncomingCountDone NetworkError,
        AllCountDone (Json (JObj [(''pagination'', JObj [(''total_items'', JNum (Num 7))])]))]
       (page_initial :: unit page_state)) = Num 0
   \<and> allCount (run (\<lambda>v. NaN)
       [OutgoingCountDone (Json (JObj [(''pagination'', JObj [(''total_items'', JNum (Num 3))])])),
        IncomingCountDone NetworkError,
        AllCountDone (Json (JObj [(''pagination'', JObj [(''total_items'', JNum (Num 7))])]))]
       (page_initial :: unit page_state)) = Num 7
   \<and> outgoingCount (run (\<lambda>v. NaN)
       [OutgoingCountDone (Json (JObj [(''pagination'', JObj [(''total_items'', JNum (Num 3))])])),
        IncomingCountDone NetworkError,
        AllCountDone (Json (JObj [(''pagination'', JObj [(''total_items'', JNum (Num 7))])]))]
       (page_initial :: unit page_state)) = Num 3"
proof -
  let ?e7 = "Json (JObj [(''pagination'', JObj [(''total_items'', JNum (Num 7))])])"
  let ?e3 = "Json (JObj [(''pagination'', JObj [(''total_items'', JNum (Num 3))])])"
  let ?es = "[OutgoingCountDone ?e3, IncomingCountDone NetworkError, AllCountDone ?e7]"
  have h: "set ?es = {IncomingCountDone NetworkError, AllCountDone ?e7, OutgoingCountDone ?e3}"
    by auto
  have v7: "fetched_count (\<lambda>v. NaN) ?e7 = Num 7"
    by (simp add: count_of_def explicit_total_def coalesce_def coalesce_lit_def)
  have v3: "fetched_count (\<lambda>v. NaN) ?e3 = Num 3"
    by (simp add: count_of_def explicit_total_def coalesce_def coalesce_lit_def)
  note w = count_fetches_independent [OF h, of "\<lambda>v. NaN" "page_initial :: unit page_state"]
  from w h v7 v3 show ?thesis by simp
qed

text \<open>
  Claim C5 says that criteria with a negative or non-finite threshold, or with a date range
  whose start is after its end, are rejected and leave the previous criteria active.
  \<open>handleApplyFilters\<close> stores criteria with the threshold -1 in place of the previous
  ones.
\<close>

theorem handleApplyFilters_unvalidated_counterexample:
  "\<not> valid_criteria (no_filters\<lparr>operator := Some gte, value' := Some (Num (- 1))\<rparr>)
   \<and> filters (handleApplyFilters (no_filters\<lparr>operator := Some gte, value' := Some (Num (- 1))\<rparr>)
        (page_initial :: unit page_state))
       = no_filters\<lparr>operator := Some gte, value' := Some (Num (- 1))\<rparr>
   \<and> filters (handleApplyFilters (no_filters\<lparr>operator := Some gte, value' := Some (Num (- 1))\<rparr>)
        (page_initial :: unit page_state))
       \<noteq> filters (page_initial :: unit page_state)"
  by (simp add: handleApplyFilters_fields valid_criteria_def threshold_ok_def no_filters_def
      page_initial_def)

text \<open>
  Claim C5, as the source has it. \<open>handleApplyFilters\<close> does not validate and has no
  failure path: criteria that the validation rule of the specification would refuse become
  the active criteria like any other, replacing different previous ones.
\<close>

theorem handleApplyFilters_unvalidated:
  assumes "\<not> valid_criteria applied"
  shows "filters (handleApplyFilters applied st) = applied
       \<and> (applied \<noteq> filters st \<longrightarrow> filters (handleApplyFilters applied st) \<noteq> filters st)"
  by (simp add: handleApplyFilters_fields)

theorem handleApplyFilters_unvalidated_witness:
  "\<not> valid_criteria (no_filters\<lparr>from' := Some ''2024-02-01'', to' := Some ''2024-01-31''\<rparr>)
   \<and> no_filters\<lparr>from' := Some ''2024-02-01'', to' := Some ''2024-01-31''\<rparr>
       \<noteq> filters (page_initial :: unit page_state)
   \<and> filters (handleApplyFilters
         (no_filters\<lparr>from' := Some ''2024-02-01'', to' := Some ''2024-01-31''\<rparr>)
         (page_initial :: unit page_state))
       = no_filters\<lparr>from' := Some ''2024-02-01'', to' := Some ''2024-01-31''\<rparr>
   \<and> filters (handleApplyFilters
         (no_filters\<lparr>from' := Some ''2024-02-01'', to' := Some ''2024-01-31''\<rparr>)
         (page_initial :: unit page_state))
       \<noteq> filters (page_initial :: unit page_state)"
proof -
  let ?bad = "no_filters\<lparr>from' := Some ''2024-02-01'', to' := Some ''2024-01-31''\<rparr>"
  have h: "\<not> valid_criteria ?bad"
    by (simp add: valid_criteria_def range_ok_def no_filters_def)
  have d: "?bad \<noteq> filters (page_initial :: unit page_state)"
    by (simp add: no_filters_def page_initial_def)
  from handleApplyFilters_unvalidated [OF h, of "page_initial :: unit page_state"] h d
  show ?thesis by blast
qed

text \<open>
  Claim C1 says that the category badges are global totals, fetched once when the page is
  mounted and never derived from the list on display. The page with the three counts keeps
  them so (\<open>count_requests_once\<close>, \<open>counts_frame\<close>, \<open>badge_frame\<close>). In
  \<open>app/payments/page.tsx\<close> the badge of "all" is the length of the payments list on display,
  and changes with it; the other badges are 0.
\<close>

theorem page_tsx_badge_follows_payments:
  "badge_page_tsx ''all'' [(), ()] = Num 2
   \<and> badge_page_tsx ''all'' [()] = Num 1
   \<and> badge_page_tsx ''incoming'' [(), ()] = Num 0
   \<and> badge_page_tsx ''outgoing'' [(), ()] = Num 0"
  by (simp add: badge_page_tsx_def)


section \<open>Properties of the payment table as specified\<close>

lemma issue_token: "token (issue st) = token st + 1"
  by (simp add: issue_def)

lemma trigger_token: "is_trigger ev \<Longrightarrow> token (table_step st ev) = token st + 1"
  by (cases ev) (simp_all add: applyFilter_def goToPage_def issue_def)

lemma resolve_stale: "tok \<noteq> token st \<Longrightarrow> resolve tok outcome st = st"
  by (simp add: resolve_def)

lemma resolve_latest:
  "records (resolve (token st) (Inr (rs, n)) st) = rs
   \<and> token (resolve (token st) (Inr (rs, n)) st) = token st"
  by (simp add: resolve_def)

text \<open>
  Claim C4. Let a fetch A be issued by any trigger, then a fetch B by any trigger before A
  resolves; let B's response arrive, and A's response after it. Then the tokens increase
  with each request, the visible records after B's response are B's, A's response changes
  nothing, and the final visible records are B's.
\<close>

theorem stale_response_discarded:
  assumes "is_trigger evA" and "is_trigger evB"
  shows "(let s1 = table_step s0 evA;
              s2 = table_step s1 evB;
              s3 = table_step s2 (Response (token s2) (Inr (rsB, nB)));
              s4 = table_step s3 (Response (token s1) outA)
          in token s0 < token s1 \<and> token s1 < token s2
             \<and> records s3 = rsB \<and> s4 = s3 \<and> records s4 = rsB)"
proof -
  define s1 where "s1 = table_step s0 evA"
  define s2 where "s2 = table_step s1 evB"
  define s3 where "s3 = table_step s2 (Response (token s2) (Inr (rsB, nB)))"
  define s4 where "s4 = table_step s3 (Response (token s1) outA)"
  have t1: "token s1 = token s0 + 1" unfolding s1_def using assms(1) by (rule trigger_token)
  have t2: "token s2 = token s1 + 1" unfolding s2_def using assms(2) by (rule trigger_token)
  have r3: "records s3 = rsB" and t3: "token s3 = token s2"
    unfolding s3_def using resolve_latest [where st = s2 and rs = rsB and n = nB] by simp_all
  have "token s1 \<noteq> token s3" using t2 t3 by simp
  then have e4: "s4 = s3" unfolding s4_def by (simp add: resolve_stale)
  have "token s0 < token s1 \<and> token s1 < token s2
        \<and> records s3 = rsB \<and> s4 = s3 \<and> records s4 = rsB"
    using t1 t2 r3 e4 by simp
  then show ?thesis unfolding Let_def s1_def s2_def s3_def s4_def .
qed

theorem stale_response_discarded_witness:
  "is_trigger (PageChanged 2 :: nat table_event) \<and> is_trigger (FilterApplied no_filters :: nat table_event)
   \<and> records (table_step (table_step (table_step (table_step (table_initial 10)
        (PageChanged 2)) (FilterApplied no_filters)) (Response 2 (Inr ([5, 6], 2))))
        (Response 1 (Inr ([7 :: nat], 1)))) = [5, 6]"
proof -
  have h1: "is_trigger (PageChanged 2 :: nat table_event)" by simp
  have h2: "is_trigger (FilterApplied no_filters :: nat table_event)" by simp
  have t1: "token (table_step (table_initial 10 :: nat table_state) (PageChanged 2)) = 1"
    by (simp add: goToPage_def issue_def table_initial_def)
  have t2: "token (table_step (table_step (table_initial 10 :: nat table_state) (PageChanged 2))
              (FilterApplied no_filters)) = 2"
    by (simp add: goToPage_def applyFilter_def issue_def table_initial_def)
  note w = stale_response_discarded [OF h1 h2, where ?s0.0 = "table_initial 10" and rsB = "[5, 6]"
      and nB = 2 and outA = "Inr ([7], 1)"]
  from w h1 h2 show ?thesis unfolding Let_def t1 t2 by simp
qed




end
